theory Spec2Isabelle
  imports Main
begin

section \<open>Values, exceptions and promises\<close>

text \<open>
  The router of \<^verbatim>\<open>src/whatsapp/routers/sendMessage.router.ts\<close> is embedded function by
  function. A JavaScript string is modelled by the bytes of its UTF-8 encoding, so a
  letter outside ASCII is two \<^typ>\<open>char\<close>s (for instance \<^verbatim>\<open>0xC3 0xA1\<close> for a-acute);
  concatenation and equality of well-formed strings agree with those of their encodings.
\<close>

datatype jsval =
    Undefined
  | Null
  | Str string
  | Num int
  | Obj "(string \<times> jsval) list"

text \<open>
  Values that are thrown. \<^verbatim>\<open>BadRequestException\<close> is declared in \<^verbatim>\<open>../../exceptions\<close>,
  which is not among the sources: it is kept as a constructor that carries its two
  constructor arguments (the message, and the optional second argument), and
  \<^verbatim>\<open>error.message\<close> of such a value is taken to read the first argument back.
  \<open>PrismaClientError\<close> stands for any error raised by the Prisma client, \<open>Error\<close> for
  any other thrown value, both with their message.
\<close>

datatype exception =
    BadRequestException string "string option"
  | PrismaClientError string
  | Error string

fun message :: "exception \<Rightarrow> string" where
  "message (BadRequestException m _) = m"
| "message (PrismaClientError m) = m"
| "message (Error m) = m"

text \<open>
  Modelled from the spec: \<^verbatim>\<open>HttpStatus.CREATED\<close> of \<^verbatim>\<open>../../app.module\<close>, which is not
  among the sources; the spec gives the status of every route as 201.
\<close>

definition CREATED :: nat where
  "CREATED = 201"

record 'b http_response =
  res_status :: nat
  res_json :: 'b

section \<open>The guest table\<close>

text \<open>
  The table \<^verbatim>\<open>Convidados\<close> of the migration: \<^verbatim>\<open>id SERIAL NOT NULL\<close>,
  \<^verbatim>\<open>createdAt DATE DEFAULT CURRENT_TIMESTAMP\<close>, \<^verbatim>\<open>updatedAt DATE\<close>,
  \<^verbatim>\<open>nome VARCHAR(100) NOT NULL\<close>, \<^verbatim>\<open>phone TEXT NOT NULL\<close>,
  \<^verbatim>\<open>confirmed BOOLEAN DEFAULT false\<close>, \<^verbatim>\<open>presente TEXT DEFAULT 'M'\<close>,
  \<^verbatim>\<open>acompanhantes TEXT[]\<close>. A row is modelled as it is stored: a column without
  \<^verbatim>\<open>NOT NULL\<close> is an option, \<open>None\<close> being \<^verbatim>\<open>NULL\<close>.
\<close>

record convidado =
  id_col :: nat
  createdAt :: "nat option"
  updatedAt :: "nat option"
  nome :: string
  phone :: string
  confirmed :: "bool option"
  presente :: "string option"
  acompanhantes :: "string list option"

text \<open>One element of the body of \<^verbatim>\<open>registrarConvidados\<close>; \<open>presente_in\<close> may be absent.\<close>

record convidado_in =
  nome_in :: string
  phone_in :: string
  presente_in :: "string option"

text \<open>The queries the router issues through the Prisma client.\<close>

datatype query =
    FindFirst string
  | Create string string "string option"
  | FindMany "bool option"

text \<open>
  The state of the database: the rows in insertion order, the next value of the
  \<^verbatim>\<open>SERIAL\<close> sequence, the current date, and the log of every query issued so far.
\<close>

record db =
  rows :: "convidado list"
  serial :: nat
  clock :: nat
  issued :: "query list"

text \<open>
  Storage failures are decided by the environment: \<open>flt k q = Some m\<close> when the query
  \<open>q\<close>, issued as the \<open>k\<close>-th one, is refused with message \<open>m\<close> (database unreachable,
  a value too long for \<^verbatim>\<open>VARCHAR(100)\<close>, ...). A refused query is logged and changes
  nothing else.
\<close>

type_synonym faults = "nat \<Rightarrow> query \<Rightarrow> string option"

definition issue :: "query \<Rightarrow> db \<Rightarrow> db" where
  "issue q d = d\<lparr>issued := issued d @ [q]\<rparr>"

definition findFirst :: "faults \<Rightarrow> string \<Rightarrow> db \<Rightarrow> (exception + convidado option) \<times> db" where
  "findFirst flt p d =
     (case flt (length (issued d)) (FindFirst p) of
        Some m \<Rightarrow> (Inl (PrismaClientError m), issue (FindFirst p) d)
      | None \<Rightarrow> (Inr (find (\<lambda>r. phone r = p) (rows d)), issue (FindFirst p) d))"

definition new_row :: "db \<Rightarrow> string \<Rightarrow> string \<Rightarrow> string option \<Rightarrow> convidado" where
  "new_row d n p pr =
     \<lparr>id_col = serial d,
      createdAt = Some (clock d),
      updatedAt = None,
      nome = n,
      phone = p,
      confirmed = Some False,
      presente = (case pr of None \<Rightarrow> Some ''M'' | Some v \<Rightarrow> Some v),
      acompanhantes = None\<rparr>"

definition create :: "faults \<Rightarrow> string \<Rightarrow> string \<Rightarrow> string option \<Rightarrow> db \<Rightarrow> (exception + convidado) \<times> db" where
  "create flt n p pr d =
     (case flt (length (issued d)) (Create n p pr) of
        Some m \<Rightarrow> (Inl (PrismaClientError m), issue (Create n p pr) d)
      | None \<Rightarrow>
          (Inr (new_row d n p pr),
           issue (Create n p pr) (d\<lparr>rows := rows d @ [new_row d n p pr], serial := Suc (serial d)\<rparr>)))"

definition findMany :: "faults \<Rightarrow> bool option \<Rightarrow> db \<Rightarrow> (exception + convidado list) \<times> db" where
  "findMany flt w d =
     (case flt (length (issued d)) (FindMany w) of
        Some m \<Rightarrow> (Inl (PrismaClientError m), issue (FindMany w) d)
      | None \<Rightarrow>
          (Inr (case w of None \<Rightarrow> rows d | Some b \<Rightarrow> filter (\<lambda>r. confirmed r = Some b) (rows d)),
           issue (FindMany w) d))"

section \<open>Route \<^verbatim>\<open>registrarConvidados\<close>\<close>

text \<open>
  The \<^verbatim>\<open>for await\<close> loop over the body: look the phone up, create the row when the
  lookup finds none. A rejected \<^verbatim>\<open>await\<close> leaves the loop and the handler.
\<close>

fun registrar_loop :: "faults \<Rightarrow> convidado_in list \<Rightarrow> db \<Rightarrow> (exception + unit) \<times> db" where
  "registrar_loop flt [] d = (Inr (), d)"
| "registrar_loop flt (c # cs) d =
     (case findFirst flt (phone_in c) d of
        (Inl e, d1) \<Rightarrow> (Inl e, d1)
      | (Inr (Some convidadoExist), d1) \<Rightarrow> registrar_loop flt cs d1
      | (Inr None, d1) \<Rightarrow>
          (case create flt (nome_in c) (phone_in c) (presente_in c) d1 of
             (Inl e, d2) \<Rightarrow> (Inl e, d2)
           | (Inr _, d2) \<Rightarrow> registrar_loop flt cs d2))"

definition registrarConvidados_route ::
  "faults \<Rightarrow> convidado_in list \<Rightarrow> db \<Rightarrow> (exception + convidado list http_response) \<times> db" where
  "registrarConvidados_route flt body d =
     (case registrar_loop flt body d of
        (Inl e, d1) \<Rightarrow> (Inl e, d1)
      | (Inr _, d1) \<Rightarrow>
          (case findMany flt None d1 of
             (Inl e, d2) \<Rightarrow> (Inl e, d2)
           | (Inr convidados, d2) \<Rightarrow>
               (Inr \<lparr>res_status = CREATED, res_json = convidados\<rparr>, d2)))"

text \<open>Successive calls of the route, each on the database the previous one left.\<close>

fun registrarConvidados_calls :: "faults \<Rightarrow> convidado_in list list \<Rightarrow> db \<Rightarrow> db" where
  "registrarConvidados_calls flt [] d = d"
| "registrarConvidados_calls flt (body # bodies) d =
     registrarConvidados_calls flt bodies (snd (registrarConvidados_route flt body d))"

section \<open>Route \<^verbatim>\<open>confirmados\<close>\<close>

text \<open>
  \<^verbatim>\<open>convidados.filter((convidado) => convidado.confirmed)\<close> keeps the rows whose flag is
  truthy: \<^verbatim>\<open>null\<close> and \<^verbatim>\<open>false\<close> are not.
\<close>

fun truthy :: "bool option \<Rightarrow> bool" where
  "truthy None = False"
| "truthy (Some b) = b"

record report =
  totalConvites :: nat
  totalConfirmados :: nat
  confirmados :: "convidado list"

definition confirmados_route :: "faults \<Rightarrow> db \<Rightarrow> (exception + report http_response) \<times> db" where
  "confirmados_route flt d =
     (case findMany flt None d of
        (Inl e, d1) \<Rightarrow> (Inl e, d1)
      | (Inr convidados, d1) \<Rightarrow>
          (Inr \<lparr>res_status = CREATED,
                res_json =
                  \<lparr>totalConvites = length convidados,
                   totalConfirmados = length (filter (\<lambda>convidado. truthy (confirmed convidado)) convidados),
                   confirmados = filter (\<lambda>convidado. truthy (confirmed convidado)) convidados\<rparr>\<rparr>,
           d1))"

section \<open>The gateway\<close>

text \<open>
  One call of \<^verbatim>\<open>fetch\<close>. \<open>f_body\<close> is the value handed to \<^verbatim>\<open>JSON.stringify\<close>; the
  wire body is its serialisation.
\<close>

record fetch_call =
  f_url :: string
  f_method :: string
  f_headers :: "(string \<times> string) list"
  f_body :: jsval
  f_redirect :: string

text \<open>
  What the gateway does with a call is the environment's choice: the connection fails
  (\<^verbatim>\<open>fetch\<close> rejects), the answer is not JSON (\<^verbatim>\<open>response.json()\<close> rejects), or the
  answer parses.
\<close>

datatype gateway_reply =
    Unreachable string
  | NotJson string
  | Json jsval

datatype 'a promise =
    Resolved 'a
  | Rejected exception

definition fetch :: "(fetch_call \<Rightarrow> gateway_reply) \<Rightarrow> fetch_call \<Rightarrow> gateway_reply promise" where
  "fetch gw c = (case gw c of Unreachable m \<Rightarrow> Rejected (Error m) | reply \<Rightarrow> Resolved reply)"

text \<open>\<^verbatim>\<open>.then((response) => response.json())\<close>\<close>

fun then_json :: "gateway_reply promise \<Rightarrow> jsval promise" where
  "then_json (Rejected e) = Rejected e"
| "then_json (Resolved (Json v)) = Resolved v"
| "then_json (Resolved (NotJson m)) = Rejected (Error m)"
| "then_json (Resolved (Unreachable m)) = Rejected (Error m)"

text \<open>
  \<^verbatim>\<open>.catch((error) => console.error(error))\<close>: the promise and what is written to the
  console.
\<close>

fun catch_console_error :: "jsval promise \<Rightarrow> jsval promise \<times> exception list" where
  "catch_console_error (Rejected error) = (Resolved Undefined, [error])"
| "catch_console_error (Resolved v) = (Resolved v, [])"

section \<open>Route \<^verbatim>\<open>sendConvite\<close>\<close>

definition myHeaders :: "(string \<times> string) list" where
  "myHeaders =
     [(''Content-Type'', ''application/json''),
      (''apikey'', ''zYzP7ocstxh3Sscefew4FZTCu4ehnM8v4hu'')]"

text \<open>\<^verbatim>\<open>${process.env.BASE_URL}\<close>: an unset variable prints as \<^verbatim>\<open>undefined\<close>.\<close>

definition base_url :: "string option \<Rightarrow> string" where
  "base_url BASE_URL = (case BASE_URL of None \<Rightarrow> ''undefined'' | Some u \<Rightarrow> u)"

text \<open>The letters of the template outside ASCII, in UTF-8.\<close>

definition a_acute :: string where "a_acute = [CHR 0xC3, CHR 0xA1]"
definition a_tilde :: string where "a_tilde = [CHR 0xC3, CHR 0xA3]"
definition c_cedilla :: string where "c_cedilla = [CHR 0xC3, CHR 0xA7]"
definition i_acute :: string where "i_acute = [CHR 0xC3, CHR 0xAD]"
definition u_acute :: string where "u_acute = [CHR 0xC3, CHR 0xBA]"

text \<open>The template literal of the text message, lines 341 to 353 of the router.\<close>

definition convite_text :: "string \<Rightarrow> string" where
  "convite_text n =
     ''\<newline>*Convite especial*\<newline>\<newline>Ol'' @ a_acute @ '' '' @ n
     @ '', com as ben'' @ c_cedilla @ a_tilde
     @ ''os de Deus e de nossos pais e familiares, te convidamos para celebrar o amor!\<newline>\<newline>''
     @ ''*Rafael e Let'' @ i_acute @ ''cia*\<newline>\<newline>''
     @ ''_Digite o n'' @ u_acute @ ''mero para a op'' @ c_cedilla @ a_tilde @ ''o:_\<newline>\<newline>''
     @ ''*1* - Endere'' @ c_cedilla @ ''o/hor'' @ a_acute @ ''rio\<newline>''
     @ ''*2* - Confirmar presen'' @ c_cedilla @ ''a\<newline>''
     @ ''*3* - Falar com noivos\<newline>''
     @ ''*4* - Lista de presentes''"

definition rawImage :: "convidado \<Rightarrow> jsval" where
  "rawImage convidado =
     Obj [(''number'', Str (phone convidado)),
          (''options'', Obj [(''delay'', Num 200), (''presence'', Str ''composing''),
                             (''quotedMessageId'', Num 1)]),
          (''mediaMessage'', Obj [(''mediatype'', Str ''image''),
                                  (''media'', Str ''https://i.imgur.com/IDJTzgy.jpeg'')])]"

definition raw :: "convidado \<Rightarrow> jsval" where
  "raw convidado =
     Obj [(''number'', Str (phone convidado)),
          (''options'', Obj [(''delay'', Num 2000), (''presence'', Str ''composing'')]),
          (''textMessage'', Obj [(''text'', Str (convite_text (nome convidado)))])]"

definition post :: "string \<Rightarrow> jsval \<Rightarrow> fetch_call" where
  "post u b = \<lparr>f_url = u, f_method = ''POST'', f_headers = myHeaders, f_body = b, f_redirect = ''follow''\<rparr>"

text \<open>
  One run of the closure \<^verbatim>\<open>sendConvite\<close>: the calls it made, what it wrote to the
  console, and how its own promise settled. An \<^verbatim>\<open>await\<close> of a rejected promise ends
  the run with that rejection.
\<close>

record convite_run =
  posted :: "fetch_call list"
  console :: "exception list"
  settled :: "unit promise"

definition sendConvite :: "string option \<Rightarrow> (fetch_call \<Rightarrow> gateway_reply) \<Rightarrow> convidado \<Rightarrow> convite_run" where
  "sendConvite BASE_URL gw convidado =
     (let c1 = post (base_url BASE_URL @ ''/message/sendMedia/baby'') (rawImage convidado);
          (p1, log1) = catch_console_error (then_json (fetch gw c1))
      in case p1 of
           Rejected e \<Rightarrow> \<lparr>posted = [c1], console = log1, settled = Rejected e\<rparr>
         | Resolved _ \<Rightarrow>
             (let c2 = post (base_url BASE_URL @ ''/message/sendText/baby'') (raw convidado);
                  (p2, log2) = catch_console_error (then_json (fetch gw c2))
              in case p2 of
                   Rejected e \<Rightarrow> \<lparr>posted = [c1, c2], console = log1 @ log2, settled = Rejected e\<rparr>
                 | Resolved _ \<Rightarrow> \<lparr>posted = [c1, c2], console = log1 @ log2, settled = Resolved ()\<rparr>))"

text \<open>
  A call of \<^verbatim>\<open>setTimeout\<close>: the delay in milliseconds passed to it and the guest its
  callback closes over.
\<close>

record timer =
  delay :: nat
  guest :: convidado

definition sendConvite_route ::
  "faults \<Rightarrow> db \<Rightarrow> (exception + jsval http_response) \<times> timer list \<times> db" where
  "sendConvite_route flt d =
     (case findMany flt (Some False) d of
        (Inl e, d1) \<Rightarrow> (Inl e, [], d1)
      | (Inr convidados, d1) \<Rightarrow>
          (Inr \<lparr>res_status = CREATED, res_json = Obj [(''message'', Str ''Convites sendo enviados'')]\<rparr>,
           map (\<lambda>(index, convidado). \<lparr>delay = index * 60000, guest = convidado\<rparr>)
               (enumerate 0 convidados),
           d1))"

text \<open>
  The timers fire by increasing delay, those of equal delay in the order they were set.
  \<open>gws k\<close> is the gateway as the \<open>k\<close>-th callback to fire meets it.
\<close>

definition fire :: "string option \<Rightarrow> (nat \<Rightarrow> fetch_call \<Rightarrow> gateway_reply) \<Rightarrow> timer list \<Rightarrow> convite_run list" where
  "fire BASE_URL gws timers =
     map (\<lambda>(k, t). sendConvite BASE_URL (gws k) (guest t)) (enumerate 0 (sort_key delay timers))"

definition broadcast ::
  "string option \<Rightarrow> (nat \<Rightarrow> fetch_call \<Rightarrow> gateway_reply) \<Rightarrow> faults \<Rightarrow> db
     \<Rightarrow> (exception + jsval http_response) \<times> convite_run list \<times> db" where
  "broadcast BASE_URL gws flt d =
     (case sendConvite_route flt d of (response, timers, d1) \<Rightarrow> (response, fire BASE_URL gws timers, d1))"

section \<open>Requests, middleware and controllers\<close>

text \<open>
  The part of an Express request the router reads: \<^verbatim>\<open>req.file\<close> (set by the upload
  middleware) and \<^verbatim>\<open>req.body\<close>, an object when a body parser has run.
\<close>

record upload =
  fieldname :: string

record express_req =
  req_file :: "upload option"
  req_body :: "(string \<rightharpoonup> jsval) option"

text \<open>What a route did outside itself: the controller methods it invoked and the gateway calls made.\<close>

datatype effect =
    Invoked string
  | Posted fetch_call

text \<open>
  The controller \<^verbatim>\<open>SendMessageController\<close> is not among the sources. A method is taken
  as a parameter: given the instance and the payload it makes gateway calls and either
  throws or returns a promise.
\<close>

type_synonym ('i, 'p) controller_method = "'i \<Rightarrow> 'p \<Rightarrow> fetch_call list \<times> (exception + jsval promise)"

definition invoke ::
  "string \<Rightarrow> ('i, 'p) controller_method \<Rightarrow> 'i \<Rightarrow> 'p \<Rightarrow> effect list \<times> (exception + jsval promise)" where
  "invoke name method instance props =
     (case method instance props of (calls, outcome) \<Rightarrow> (Invoked name # map Posted calls, outcome))"

text \<open>
  Modelled from the spec: \<^verbatim>\<open>dataValidate\<close> of \<^verbatim>\<open>../../validate/router.validate\<close>, which is
  not among the sources. The spec: the routing layer validates the body against a schema,
  rejects a malformed request before any side effect, and otherwise dispatches. \<open>schema\<close>
  is that validation, yielding the instance and the data.
\<close>

definition dataValidate ::
  "(express_req \<Rightarrow> exception + 'i \<times> 'd)
     \<Rightarrow> ('i \<Rightarrow> 'd \<Rightarrow> upload option \<Rightarrow> effect list \<times> (exception + jsval promise))
     \<Rightarrow> express_req \<Rightarrow> effect list \<times> jsval promise" where
  "dataValidate schema execute request =
     (case schema request of
        Inl e \<Rightarrow> ([], Rejected e)
      | Inr (instance, data) \<Rightarrow>
          (case execute instance data (req_file request) of
             (effects, Inl e) \<Rightarrow> (effects, Rejected e)
           | (effects, Inr p) \<Rightarrow> (effects, p)))"

text \<open>\<^verbatim>\<open>const response = await dataValidate(...); return res.status(HttpStatus.CREATED).json(response)\<close>\<close>

definition respond :: "effect list \<times> jsval promise \<Rightarrow> effect list \<times> (exception + jsval http_response)" where
  "respond r =
     (case r of
        (effects, Rejected e) \<Rightarrow> (effects, Inl e)
      | (effects, Resolved response) \<Rightarrow> (effects, Inr \<lparr>res_status = CREATED, res_json = response\<rparr>))"



section \<open>Route \<^verbatim>\<open>sendButtons\<close>\<close>

text \<open>
  \<^verbatim>\<open>SendButtonsDto\<close> is not among the sources: its constructor \<open>newDto\<close>, the reading of
  \<^verbatim>\<open>props.buttonsMessage.buttons\<close> (\<open>buttons\<close>) and the method \<^verbatim>\<open>validate\<close> of a button
  are parameters. \<open>validate b = Some m\<close> is an error with message \<open>m\<close>, \<open>None\<close> a falsy
  result. \<open>stack\<close> reads \<^verbatim>\<open>error?.stack\<close>.
\<close>

fun validate_buttons :: "('b \<Rightarrow> string option) \<Rightarrow> 'b list \<Rightarrow> exception + unit" where
  "validate_buttons validate [] = Inr ()"
| "validate_buttons validate (b # bs) =
     (case validate b of
        Some m \<Rightarrow> Inl (BadRequestException m None)
      | None \<Rightarrow> validate_buttons validate bs)"

definition sendButtons_execute ::
  "('d \<Rightarrow> exception + 'p) \<Rightarrow> ('p \<Rightarrow> 'b list) \<Rightarrow> ('b \<Rightarrow> string option) \<Rightarrow> (exception \<Rightarrow> string option)
     \<Rightarrow> ('i, 'p) controller_method
     \<Rightarrow> 'i \<Rightarrow> 'd \<Rightarrow> upload option \<Rightarrow> effect list \<times> (exception + jsval promise)" where
  "sendButtons_execute newDto buttons validate stack sendButtons instance data file =
     (case (case newDto data of
              Inl error \<Rightarrow> ([], Inl error)
            | Inr props \<Rightarrow>
                (case validate_buttons validate (buttons props) of
                   Inl error \<Rightarrow> ([], Inl error)
                 | Inr _ \<Rightarrow> invoke ''sendButtons'' sendButtons instance props))
      of (effects, Inl error) \<Rightarrow> (effects, Inl (BadRequestException (message error) (stack error)))
       | (effects, Inr p) \<Rightarrow> (effects, Inr p))"

definition sendButtons_route ::
  "(express_req \<Rightarrow> exception + 'i \<times> 'd)
     \<Rightarrow> ('d \<Rightarrow> exception + 'p) \<Rightarrow> ('p \<Rightarrow> 'b list) \<Rightarrow> ('b \<Rightarrow> string option) \<Rightarrow> (exception \<Rightarrow> string option)
     \<Rightarrow> ('i, 'p) controller_method
     \<Rightarrow> express_req \<Rightarrow> effect list \<times> (exception + jsval http_response)" where
  "sendButtons_route buttonsMessageSchema newDto buttons validate stack sendButtons req =
     respond (dataValidate buttonsMessageSchema
                (sendButtons_execute newDto buttons validate stack sendButtons) req)"

section \<open>Routes \<^verbatim>\<open>sendMediaFile\<close> and \<^verbatim>\<open>sendWhatsAppAudioFile\<close>\<close>







section \<open>Concrete inputs\<close>

text \<open>
  Tables, bodies and environments on which the routes are evaluated. The schema checks,
  DTO constructor, button validation, upload middleware and controller methods below are
  stand-ins for the parameters of the routes, chosen to exercise both outcomes.
\<close>

definition no_faults :: faults where
  "no_faults k q = None"

definition empty_db :: db where
  "empty_db = \<lparr>rows = [], serial = 1, clock = 0, issued = []\<rparr>"

definition ana :: convidado_in where
  "ana = \<lparr>nome_in = ''Ana'', phone_in = ''+5511999999999'', presente_in = Some ''S''\<rparr>"

definition bia :: convidado_in where
  "bia = \<lparr>nome_in = ''Bia'', phone_in = ''+5521988888888'', presente_in = None\<rparr>"

definition ana_row :: convidado where
  "ana_row =
     \<lparr>id_col = 1, createdAt = Some 0, updatedAt = None, nome = ''Ana'', phone = ''+5511999999999'',
      confirmed = Some False, presente = Some ''S'', acompanhantes = None\<rparr>"

definition bia_row :: convidado where
  "bia_row =
     \<lparr>id_col = 2, createdAt = Some 0, updatedAt = None, nome = ''Bia'', phone = ''+5521988888888'',
      confirmed = Some False, presente = Some ''M'', acompanhantes = None\<rparr>"

text \<open>The table after Ana was imported into the empty one, with the three queries of that call.\<close>

definition ana_db :: db where
  "ana_db =
     \<lparr>rows = [ana_row], serial = 2, clock = 0,
      issued = [FindFirst ''+5511999999999'', Create ''Ana'' ''+5511999999999'' (Some ''S''), FindMany None]\<rparr>"

definition caio_row :: convidado where
  "caio_row =
     \<lparr>id_col = 3, createdAt = Some 0, updatedAt = None, nome = ''Caio'', phone = ''+5531977777777'',
      confirmed = None, presente = Some ''M'', acompanhantes = None\<rparr>"

definition party_db :: db where
  "party_db = \<lparr>rows = [ana_row\<lparr>confirmed := Some True\<rparr>, bia_row, caio_row], serial = 4, clock = 0, issued = []\<rparr>"

definition db_down :: faults where
  "db_down k q = Some ''unreachable''"

definition pending_db :: db where
  "pending_db = \<lparr>rows = [ana_row, bia_row], serial = 3, clock = 0, issued = []\<rparr>"

definition gateway_down :: "fetch_call \<Rightarrow> gateway_reply" where
  "gateway_down c = Unreachable ''ECONNREFUSED''"

definition fails_at :: "nat \<Rightarrow> faults" where
  "fails_at n k q = (if k = n then Some ''unreachable'' else None)"

definition caio :: convidado_in where
  "caio = \<lparr>nome_in = ''Caio'', phone_in = ''+5531977777777'', presente_in = None\<rparr>"

definition schema_ok :: "express_req \<Rightarrow> exception + string \<times> string list" where
  "schema_ok req = Inr (''baby'', [''Confirmar'', [], ''Falar''])"

definition newDto_ok :: "string list \<Rightarrow> exception + string list" where
  "newDto_ok data = Inr data"

definition displayText_required :: "string \<Rightarrow> string option" where
  "displayText_required b = (if b = [] then Some ''displayText is required'' else None)"

definition no_stack :: "exception \<Rightarrow> string option" where
  "no_stack e = None"

definition gateway_once :: "(string, string list) controller_method" where
  "gateway_once instance props = ([post ''http://gateway/message/sendButtons/baby'' (Obj [])], Inr (Resolved Null))"

definition json_request :: express_req where
  "json_request = \<lparr>req_file = None, req_body = Some Map.empty\<rparr>"






section \<open>The bulk import keeps phones unique\<close>

lemma rows_issue [simp]: "rows (issue q d) = rows d"
  by (simp add: issue_def)

lemma issued_issue [simp]: "issued (issue q d) = issued d @ [q]"
  by (simp add: issue_def)

lemma snd_findMany [simp]: "snd (findMany flt w d) = issue (FindMany w) d"
  by (simp add: findMany_def split: option.splits)

lemma find_phone_None: "find (\<lambda>r. phone r = p) rs = None \<longleftrightarrow> p \<notin> phone ` set rs"
  by (auto simp: find_None_iff)

lemma find_phone_Some: "find (\<lambda>r. phone r = p) rs = Some x \<Longrightarrow> p \<in> phone ` set rs"
  by (induction rs) (auto split: if_splits)

lemma phone_new_row [simp]: "phone (new_row d n p pr) = p"
  by (simp add: new_row_def)

text \<open>The four ways one round of the loop can go.\<close>

lemma registrar_loop_Cons_cases:
  obtains
    (lookup_refused) e where
      "registrar_loop flt (c # cs) d = (Inl e, issue (FindFirst (phone_in c)) d)"
  | (skipped)
      "phone_in c \<in> phone ` set (rows d)"
      "registrar_loop flt (c # cs) d = registrar_loop flt cs (issue (FindFirst (phone_in c)) d)"
  | (create_refused) e where
      "phone_in c \<notin> phone ` set (rows d)"
      "registrar_loop flt (c # cs) d =
         (Inl e, issue (Create (nome_in c) (phone_in c) (presente_in c)) (issue (FindFirst (phone_in c)) d))"
  | (created) d2 where
      "phone_in c \<notin> phone ` set (rows d)"
      "rows d2 = rows d @ [new_row (issue (FindFirst (phone_in c)) d) (nome_in c) (phone_in c) (presente_in c)]"
      "issued d2 = issued d @ [FindFirst (phone_in c), Create (nome_in c) (phone_in c) (presente_in c)]"
      "registrar_loop flt (c # cs) d = registrar_loop flt cs d2"
proof (cases "flt (length (issued d)) (FindFirst (phone_in c))")
  case (Some m)
  then show ?thesis using lookup_refused by (simp add: findFirst_def)
next
  case nofault: None
  show ?thesis
  proof (cases "find (\<lambda>r. phone r = phone_in c) (rows d)")
    case (Some x)
    then show ?thesis using nofault skipped find_phone_Some[OF Some]
      by (simp add: findFirst_def)
  next
    case None
    then have fresh: "phone_in c \<notin> phone ` set (rows d)" by (simp add: find_phone_None)
    let ?d1 = "issue (FindFirst (phone_in c)) d"
    let ?q = "Create (nome_in c) (phone_in c) (presente_in c)"
    show ?thesis
    proof (cases "flt (length (issued ?d1)) ?q")
      case (Some m)
      then show ?thesis using nofault None fresh create_refused
        by (simp add: findFirst_def create_def)
    next
      case ok: None
      let ?d2 = "issue ?q (?d1\<lparr>rows := rows ?d1 @ [new_row ?d1 (nome_in c) (phone_in c) (presente_in c)],
                               serial := Suc (serial ?d1)\<rparr>)"
      have "registrar_loop flt (c # cs) d = registrar_loop flt cs ?d2"
        using nofault None ok by (simp add: findFirst_def create_def)
      moreover have "rows ?d2 = rows d @ [new_row ?d1 (nome_in c) (phone_in c) (presente_in c)]"
        by simp
      moreover have "issued ?d2 = issued d @ [FindFirst (phone_in c), ?q]"
        by (simp add: issue_def)
      ultimately show ?thesis using fresh created by blast
    qed
  qed
qed

lemma registrar_loop_distinct:
  "distinct (map phone (rows d)) \<Longrightarrow> distinct (map phone (rows (snd (registrar_loop flt body d))))"
proof (induction body arbitrary: d)
  case Nil
  then show ?case by simp
next
  case (Cons c cs)
  show ?case
  proof (cases rule: registrar_loop_Cons_cases[of flt c cs d])
    case (lookup_refused e)
    then show ?thesis using Cons.prems by simp
  next
    case skipped
    then show ?thesis using Cons.IH[of "issue (FindFirst (phone_in c)) d"] Cons.prems by simp
  next
    case (create_refused e)
    then show ?thesis using Cons.prems by simp
  next
    case (created d2)
    then have "distinct (map phone (rows d2))" using Cons.prems by auto
    then show ?thesis using created Cons.IH[of d2] by simp
  qed
qed

lemma registrar_loop_present:
  "phone_in ` set body \<subseteq> phone ` set (rows d) \<Longrightarrow> rows (snd (registrar_loop flt body d)) = rows d"
proof (induction body arbitrary: d)
  case Nil
  then show ?case by simp
next
  case (Cons c cs)
  have here: "phone_in c \<in> phone ` set (rows d)" using Cons.prems by simp
  show ?case
  proof (cases rule: registrar_loop_Cons_cases[of flt c cs d])
    case (lookup_refused e)
    then show ?thesis by simp
  next
    case skipped
    then show ?thesis using Cons.IH[of "issue (FindFirst (phone_in c)) d"] Cons.prems by simp
  next
    case (create_refused e)
    then show ?thesis using here by simp
  next
    case (created d2)
    then show ?thesis using here by simp
  qed
qed

lemma registrar_loop_grows:
  "phone ` set (rows d) \<subseteq> phone ` set (rows (snd (registrar_loop flt body d)))"
proof (induction body arbitrary: d)
  case Nil
  then show ?case by simp
next
  case (Cons c cs)
  show ?case
  proof (cases rule: registrar_loop_Cons_cases[of flt c cs d])
    case (lookup_refused e)
    then show ?thesis by simp
  next
    case skipped
    then show ?thesis using Cons.IH[of "issue (FindFirst (phone_in c)) d"] by simp
  next
    case (create_refused e)
    then show ?thesis by simp
  next
    case (created d2)
    have "phone ` set (rows d) \<subseteq> phone ` set (rows d2)" using created(2) by auto
    then show ?thesis using created(4) Cons.IH[of d2] by auto
  qed
qed

lemma registrar_loop_done:
  "registrar_loop flt body d = (Inr u, d') \<Longrightarrow> phone_in ` set body \<subseteq> phone ` set (rows d')"
proof (induction body arbitrary: d)
  case Nil
  then show ?case by simp
next
  case (Cons c cs)
  show ?case
  proof (cases rule: registrar_loop_Cons_cases[of flt c cs d])
    case (lookup_refused e)
    then show ?thesis using Cons.prems by simp
  next
    case skipped
    let ?d1 = "issue (FindFirst (phone_in c)) d"
    have rest: "registrar_loop flt cs ?d1 = (Inr u, d')" using skipped Cons.prems by simp
    have "phone_in c \<in> phone ` set (rows d')"
      using registrar_loop_grows[of ?d1 flt cs] rest skipped(1) by auto
    then show ?thesis using Cons.IH[OF rest] by simp
  next
    case (create_refused e)
    then show ?thesis using Cons.prems by simp
  next
    case (created d2)
    have rest: "registrar_loop flt cs d2 = (Inr u, d')" using created Cons.prems by simp
    have "phone_in c \<in> phone ` set (rows d2)" using created(2) by simp
    then have "phone_in c \<in> phone ` set (rows d')"
      using registrar_loop_grows[of d2 flt cs] rest by auto
    then show ?thesis using Cons.IH[OF rest] by simp
  qed
qed

lemma registrar_loop_issued:
  "\<exists>qs. issued (snd (registrar_loop flt body d)) = issued d @ qs"
proof (induction body arbitrary: d)
  case Nil
  then show ?case by simp
next
  case (Cons c cs)
  show ?case
  proof (cases rule: registrar_loop_Cons_cases[of flt c cs d])
    case (lookup_refused e)
    then show ?thesis by simp
  next
    case skipped
    then show ?thesis using Cons.IH[of "issue (FindFirst (phone_in c)) d"] by auto
  next
    case (create_refused e)
    then show ?thesis by simp
  next
    case (created d2)
    then show ?thesis using Cons.IH[of d2] by auto
  qed
qed

lemma registrar_loop_first_query:
  "\<exists>qs. issued (snd (registrar_loop flt (c # cs) d)) = issued d @ FindFirst (phone_in c) # qs"
proof (cases rule: registrar_loop_Cons_cases[of flt c cs d])
  case (lookup_refused e)
  then show ?thesis by simp
next
  case skipped
  then show ?thesis using registrar_loop_issued[of flt cs "issue (FindFirst (phone_in c)) d"] by auto
next
  case (create_refused e)
  then show ?thesis by simp
next
  case (created d2)
  then show ?thesis using registrar_loop_issued[of flt cs d2] by auto
qed

lemma rows_route:
  "rows (snd (registrarConvidados_route flt body d)) = rows (snd (registrar_loop flt body d))"
proof -
  obtain r d1 where l: "registrar_loop flt body d = (r, d1)" by force
  obtain r2 d2 where m: "findMany flt None d1 = (r2, d2)" by force
  then have "d2 = issue (FindMany None) d1" using snd_findMany[of flt None d1] by simp
  then show ?thesis using l m
    by (simp add: registrarConvidados_route_def split: sum.splits)
qed

lemma route_done:
  assumes "registrarConvidados_route flt body d = (Inr r, d')"
  shows "phone_in ` set body \<subseteq> phone ` set (rows d')"
proof -
  obtain r1 d1 where l: "registrar_loop flt body d = (r1, d1)" by force
  obtain r2 d2 where m: "findMany flt None d1 = (r2, d2)" by force
  from assms l m obtain u where u: "r1 = Inr u" and "d' = d2"
    by (auto simp: registrarConvidados_route_def split: sum.splits)
  moreover have "d2 = issue (FindMany None) d1" using m snd_findMany[of flt None d1] by simp
  ultimately have "rows d' = rows d1" by simp
  then show ?thesis using registrar_loop_done[of flt body d u d1] l u by simp
qed

lemma calls_distinct:
  "distinct (map phone (rows d)) \<Longrightarrow> distinct (map phone (rows (registrarConvidados_calls flt bodies d)))"
  by (induction bodies arbitrary: d) (simp_all add: rows_route registrar_loop_distinct)


lemma registrar_loop_skip:
  assumes "phone_in c \<in> phone ` set (rows d)" and "flt (length (issued d)) (FindFirst (phone_in c)) = None"
  shows "registrar_loop flt (c # cs) d = registrar_loop flt cs (issue (FindFirst (phone_in c)) d)"
proof -
  from assms(1) have "find (\<lambda>r. phone r = phone_in c) (rows d) \<noteq> None"
    by (simp add: find_phone_None)
  then obtain x where "find (\<lambda>r. phone r = phone_in c) (rows d) = Some x" by blast
  then show ?thesis using assms(2) by (simp add: findFirst_def)
qed

lemma route_present:
  "phone_in ` set body \<subseteq> phone ` set (rows d) \<Longrightarrow> rows (snd (registrarConvidados_route flt body d)) = rows d"
  by (simp add: rows_route registrar_loop_present)

text \<open>
  C1. A table in which no two guests share a phone stays so through any sequence of calls
  of the bulk import, whatever the storage refuses on the way; the empty table is one.
  Every round of the loop issues the lookup of the tuple's phone before anything else.
  When the lookup answers and finds the phone, the round issues nothing more and goes on
  with the next tuple. A body all of whose phones are already present leaves the rows
  as they are, and so does submitting again a body whose import has succeeded.
\<close>

theorem registrarConvidados_phone_unique:
  assumes "distinct (map phone (rows d))"
  shows "distinct (map phone (rows (registrarConvidados_calls flt bodies d)))
       \<and> (\<exists>qs. issued (snd (registrar_loop flt (c # cs) d)) = issued d @ FindFirst (phone_in c) # qs)
       \<and> (phone_in c \<in> phone ` set (rows d) \<and> flt (length (issued d)) (FindFirst (phone_in c)) = None
            \<longrightarrow> registrar_loop flt (c # cs) d = registrar_loop flt cs (issue (FindFirst (phone_in c)) d))
       \<and> (phone_in ` set body \<subseteq> phone ` set (rows d)
            \<longrightarrow> rows (snd (registrarConvidados_route flt body d)) = rows d)
       \<and> (\<forall>r d'. registrarConvidados_route flt body d = (Inr r, d')
            \<longrightarrow> rows (snd (registrarConvidados_route flt' body d')) = rows d')"
proof (intro conjI impI allI)
  show "distinct (map phone (rows (registrarConvidados_calls flt bodies d)))"
    using assms by (rule calls_distinct)
  show "\<exists>qs. issued (snd (registrar_loop flt (c # cs) d)) = issued d @ FindFirst (phone_in c) # qs"
    by (rule registrar_loop_first_query)
  show "registrar_loop flt (c # cs) d = registrar_loop flt cs (issue (FindFirst (phone_in c)) d)"
    if "phone_in c \<in> phone ` set (rows d) \<and> flt (length (issued d)) (FindFirst (phone_in c)) = None"
    using that registrar_loop_skip[of c d flt cs] by blast
  show "rows (snd (registrarConvidados_route flt body d)) = rows d"
    if "phone_in ` set body \<subseteq> phone ` set (rows d)"
    using that by (rule route_present)
  show "rows (snd (registrarConvidados_route flt' body d')) = rows d'"
    if "registrarConvidados_route flt body d = (Inr r, d')" for r d'
    using route_done[OF that] by (rule route_present)
qed

lemma import_ana: "registrarConvidados_route no_faults [ana] empty_db = (Inr \<lparr>res_status = 201, res_json = [ana_row]\<rparr>, ana_db)"
  by (simp add: registrarConvidados_route_def findFirst_def create_def findMany_def issue_def new_row_def
      no_faults_def empty_db_def ana_def ana_row_def ana_db_def CREATED_def)

theorem registrarConvidados_phone_unique_witness:
  "distinct (map phone (rows empty_db))
   \<and> registrarConvidados_route no_faults [ana] empty_db = (Inr \<lparr>res_status = 201, res_json = [ana_row]\<rparr>, ana_db)
   \<and> phone_in ana \<in> phone ` set (rows ana_db)
   \<and> no_faults (length (issued ana_db)) (FindFirst (phone_in ana)) = None
   \<and> phone_in ` set [ana] \<subseteq> phone ` set (rows ana_db)
   \<and> distinct (map phone (rows (registrarConvidados_calls no_faults [[ana], [ana, bia], [bia, ana]] empty_db)))
   \<and> rows (snd (registrarConvidados_route no_faults [ana] ana_db)) = [ana_row]
   \<and> registrar_loop no_faults [ana] ana_db = (Inr (), issue (FindFirst (phone_in ana)) ana_db)"
proof -
  have h0: "distinct (map phone (rows empty_db))" by (simp add: empty_db_def)
  have h1: "distinct (map phone (rows ana_db))" by (simp add: ana_db_def)
  have h2: "phone_in ana \<in> phone ` set (rows ana_db)" by (simp add: ana_db_def ana_def ana_row_def)
  have h3: "no_faults (length (issued ana_db)) (FindFirst (phone_in ana)) = None" by (simp add: no_faults_def)
  have h4: "phone_in ` set [ana] \<subseteq> phone ` set (rows ana_db)" using h2 by simp
  have r: "rows ana_db = [ana_row]" by (simp add: ana_db_def)
  note a = registrarConvidados_phone_unique[OF h0, of no_faults "[[ana], [ana, bia], [bia, ana]]" ana "[]" "[ana]" no_faults]
  note b = registrarConvidados_phone_unique[OF h1, of no_faults "[]" ana "[]" "[ana]" no_faults]
  show ?thesis using a b h0 h2 h3 h4 r import_ana by simp
qed

section \<open>The confirmation report\<close>

lemma truthy_iff: "truthy b \<longleftrightarrow> b = Some True"
  by (cases b) auto

lemma serial_issue [simp]: "serial (issue q d) = serial d"
  by (simp add: issue_def)

lemma snd_confirmados_route: "snd (confirmados_route flt d) = issue (FindMany None) d"
  by (cases "flt (length (issued d)) (FindMany None)")
     (simp_all add: confirmados_route_def findMany_def)

text \<open>
  C2. The confirmation report changes neither the rows nor the sequence of the table.
  When its query is answered, it responds 201 with \<open>totalConvites\<close> the number of all
  guests, \<open>totalConfirmados\<close> the number of guests whose \<open>confirmed\<close> is true and
  \<open>confirmados\<close> the list of exactly those guests, in table order; the empty table gives
  0, 0 and the empty list.
\<close>

theorem confirmados_report:
  "rows (snd (confirmados_route flt d)) = rows d
   \<and> serial (snd (confirmados_route flt d)) = serial d
   \<and> (flt (length (issued d)) (FindMany None) = None \<longrightarrow>
        fst (confirmados_route flt d) =
          Inr \<lparr>res_status = 201,
               res_json =
                 \<lparr>totalConvites = length (rows d),
                  totalConfirmados = length (filter (\<lambda>g. confirmed g = Some True) (rows d)),
                  confirmados = filter (\<lambda>g. confirmed g = Some True) (rows d)\<rparr>\<rparr>
        \<and> set (filter (\<lambda>g. confirmed g = Some True) (rows d)) = {g \<in> set (rows d). confirmed g = Some True})"
proof (intro conjI impI)
  show "rows (snd (confirmados_route flt d)) = rows d"
    by (simp add: snd_confirmados_route)
  show "serial (snd (confirmados_route flt d)) = serial d"
    by (simp add: snd_confirmados_route)
  show "set (filter (\<lambda>g. confirmed g = Some True) (rows d)) = {g \<in> set (rows d). confirmed g = Some True}"
    by auto
next
  assume ok: "flt (length (issued d)) (FindMany None) = None"
  show "fst (confirmados_route flt d) =
          Inr \<lparr>res_status = 201,
               res_json =
                 \<lparr>totalConvites = length (rows d),
                  totalConfirmados = length (filter (\<lambda>g. confirmed g = Some True) (rows d)),
                  confirmados = filter (\<lambda>g. confirmed g = Some True) (rows d)\<rparr>\<rparr>"
    using ok by (simp add: confirmados_route_def findMany_def CREATED_def truthy_iff)
qed

theorem confirmados_report_witness:
  "no_faults (length (issued party_db)) (FindMany None) = None
   \<and> no_faults (length (issued empty_db)) (FindMany None) = None
   \<and> fst (confirmados_route no_faults party_db) =
       Inr \<lparr>res_status = 201,
            res_json = \<lparr>totalConvites = 3, totalConfirmados = 1, confirmados = [ana_row\<lparr>confirmed := Some True\<rparr>]\<rparr>\<rparr>
   \<and> fst (confirmados_route no_faults empty_db) =
       Inr \<lparr>res_status = 201, res_json = \<lparr>totalConvites = 0, totalConfirmados = 0, confirmados = []\<rparr>\<rparr>
   \<and> rows (snd (confirmados_route no_faults party_db)) = rows party_db"
proof -
  have h1: "no_faults (length (issued party_db)) (FindMany None) = None" by (simp add: no_faults_def)
  have h2: "no_faults (length (issued empty_db)) (FindMany None) = None" by (simp add: no_faults_def)
  have r1: "rows party_db = [ana_row\<lparr>confirmed := Some True\<rparr>, bia_row, caio_row]" by (simp add: party_db_def)
  have r2: "rows empty_db = []" by (simp add: empty_db_def)
  have c: "confirmed bia_row = Some False" "confirmed caio_row = None"
    by (simp_all add: bia_row_def caio_row_def)
  show ?thesis
    using confirmados_report[of no_faults party_db] confirmados_report[of no_faults empty_db] h1 h2
    by (simp add: r1 r2 c)
qed

section \<open>The broadcast\<close>

lemma sendConvite_route_ok:
  "flt (length (issued d)) (FindMany (Some False)) = None \<Longrightarrow>
   sendConvite_route flt d =
     (Inr \<lparr>res_status = 201, res_json = Obj [(''message'', Str ''Convites sendo enviados'')]\<rparr>,
      map (\<lambda>(index, convidado). \<lparr>delay = index * 60000, guest = convidado\<rparr>)
          (enumerate 0 (filter (\<lambda>g. confirmed g = Some False) (rows d))),
      issue (FindMany (Some False)) d)"
  by (simp add: sendConvite_route_def findMany_def CREATED_def)

lemma sendConvite_route_refused:
  "flt (length (issued d)) (FindMany (Some False)) = Some m \<Longrightarrow>
   sendConvite_route flt d = (Inl (PrismaClientError m), [], issue (FindMany (Some False)) d)"
  by (simp add: sendConvite_route_def findMany_def)


lemma guest_timers:
  "map guest (map (\<lambda>(index, convidado). \<lparr>delay = index * 60000, guest = convidado\<rparr>) (enumerate n gs)) = gs"
  by (induction gs arbitrary: n) simp_all

lemma sorted_timers:
  "sorted (map delay (map (\<lambda>(index, convidado). \<lparr>delay = index * 60000, guest = convidado\<rparr>) (enumerate 0 gs)))"
  by (simp add: sorted_iff_nth_mono nth_enumerate_eq)

lemma sort_timers:
  "sort_key delay (map (\<lambda>(index, convidado). \<lparr>delay = index * 60000, guest = convidado\<rparr>) (enumerate 0 gs))
     = map (\<lambda>(index, convidado). \<lparr>delay = index * 60000, guest = convidado\<rparr>) (enumerate 0 gs)"
  using sorted_timers[of gs] by (rule sort_key_id_if_sorted)

lemma fire_timers:
  "fire B gws (map (\<lambda>(index, convidado). \<lparr>delay = index * 60000, guest = convidado\<rparr>) (enumerate 0 gs))
     = map (\<lambda>(k, g). sendConvite B (gws k) g) (enumerate 0 gs)"
proof -
  have "map (\<lambda>(k, t). sendConvite B (gws k) (guest t))
          (enumerate m (map (\<lambda>(index, convidado). \<lparr>delay = index * 60000, guest = convidado\<rparr>) (enumerate n gs)))
        = map (\<lambda>(k, g). sendConvite B (gws k) g) (enumerate m gs)" for m n
    by (induction gs arbitrary: m n) simp_all
  then show ?thesis by (simp add: fire_def sort_timers)
qed

lemma broadcast_runs:
  "flt (length (issued d)) (FindMany (Some False)) = None \<Longrightarrow>
   fst (snd (broadcast B gws flt d))
     = map (\<lambda>(k, g). sendConvite B (gws k) g) (enumerate 0 (filter (\<lambda>g. confirmed g = Some False) (rows d)))"
  by (simp add: sendConvite_route_ok broadcast_def fire_timers)



section \<open>One invitation\<close>

lemma caught_Resolved: "\<exists>v. fst (catch_console_error p) = Resolved v"
  by (cases p) simp_all

lemma sendConvite_unfold:
  "sendConvite B gw g =
     \<lparr>posted = [post (base_url B @ ''/message/sendMedia/baby'') (rawImage g),
                post (base_url B @ ''/message/sendText/baby'') (raw g)],
      console = snd (catch_console_error (then_json (fetch gw (post (base_url B @ ''/message/sendMedia/baby'') (rawImage g)))))
              @ snd (catch_console_error (then_json (fetch gw (post (base_url B @ ''/message/sendText/baby'') (raw g))))),
      settled = Resolved ()\<rparr>"
proof -
  let ?c1 = "post (base_url B @ ''/message/sendMedia/baby'') (rawImage g)"
  let ?c2 = "post (base_url B @ ''/message/sendText/baby'') (raw g)"
  obtain v1 where p1: "fst (catch_console_error (then_json (fetch gw ?c1))) = Resolved v1"
    using caught_Resolved by blast
  obtain v2 where p2: "fst (catch_console_error (then_json (fetch gw ?c2))) = Resolved v2"
    using caught_Resolved by blast
  show ?thesis
    using p1 p2 by (simp add: sendConvite_def Let_def split_beta)
qed

text \<open>
  C4. Whatever the gateway answers, one deferred action makes exactly two calls, in this
  order: the media message to the guest's phone, with the fixed image and the options
  delay 200, presence composing, quotedMessageId 1; then the text message to the same phone,
  with the options delay 2000, presence composing. The text is the invitation with the
  guest's name in it, followed by the fixed numbered menu.
\<close>

theorem sendConvite_media_then_text:
  "posted (sendConvite B gw g) =
     [\<lparr>f_url = base_url B @ ''/message/sendMedia/baby'',
       f_method = ''POST'',
       f_headers = myHeaders,
       f_body =
         Obj [(''number'', Str (phone g)),
              (''options'', Obj [(''delay'', Num 200), (''presence'', Str ''composing''),
                                 (''quotedMessageId'', Num 1)]),
              (''mediaMessage'', Obj [(''mediatype'', Str ''image''),
                                      (''media'', Str ''https://i.imgur.com/IDJTzgy.jpeg'')])],
       f_redirect = ''follow''\<rparr>,
      \<lparr>f_url = base_url B @ ''/message/sendText/baby'',
       f_method = ''POST'',
       f_headers = myHeaders,
       f_body =
         Obj [(''number'', Str (phone g)),
              (''options'', Obj [(''delay'', Num 2000), (''presence'', Str ''composing'')]),
              (''textMessage'', Obj [(''text'', Str (convite_text (nome g)))])],
       f_redirect = ''follow''\<rparr>]
   \<and> convite_text (nome g) =
       (''\<newline>*Convite especial*\<newline>\<newline>Ol'' @ a_acute @ '' '') @ nome g
       @ ('', com as ben'' @ c_cedilla @ a_tilde
          @ ''os de Deus e de nossos pais e familiares, te convidamos para celebrar o amor!''
          @ ''\<newline>\<newline>*Rafael e Let'' @ i_acute @ ''cia*'')
       @ (''\<newline>\<newline>_Digite o n'' @ u_acute @ ''mero para a op'' @ c_cedilla @ a_tilde @ ''o:_''
          @ ''\<newline>\<newline>*1* - Endere'' @ c_cedilla @ ''o/hor'' @ a_acute @ ''rio''
          @ ''\<newline>*2* - Confirmar presen'' @ c_cedilla @ ''a''
          @ ''\<newline>*3* - Falar com noivos''
          @ ''\<newline>*4* - Lista de presentes'')"
proof
  show "posted (sendConvite B gw g) =
     [\<lparr>f_url = base_url B @ ''/message/sendMedia/baby'',
       f_method = ''POST'',
       f_headers = myHeaders,
       f_body =
         Obj [(''number'', Str (phone g)),
              (''options'', Obj [(''delay'', Num 200), (''presence'', Str ''composing''),
                                 (''quotedMessageId'', Num 1)]),
              (''mediaMessage'', Obj [(''mediatype'', Str ''image''),
                                      (''media'', Str ''https://i.imgur.com/IDJTzgy.jpeg'')])],
       f_redirect = ''follow''\<rparr>,
      \<lparr>f_url = base_url B @ ''/message/sendText/baby'',
       f_method = ''POST'',
       f_headers = myHeaders,
       f_body =
         Obj [(''number'', Str (phone g)),
              (''options'', Obj [(''delay'', Num 2000), (''presence'', Str ''composing'')]),
              (''textMessage'', Obj [(''text'', Str (convite_text (nome g)))])],
       f_redirect = ''follow''\<rparr>]"
    by (simp add: sendConvite_unfold post_def rawImage_def raw_def)
  show "convite_text (nome g) =
       (''\<newline>*Convite especial*\<newline>\<newline>Ol'' @ a_acute @ '' '') @ nome g
       @ ('', com as ben'' @ c_cedilla @ a_tilde
          @ ''os de Deus e de nossos pais e familiares, te convidamos para celebrar o amor!''
          @ ''\<newline>\<newline>*Rafael e Let'' @ i_acute @ ''cia*'')
       @ (''\<newline>\<newline>_Digite o n'' @ u_acute @ ''mero para a op'' @ c_cedilla @ a_tilde @ ''o:_''
          @ ''\<newline>\<newline>*1* - Endere'' @ c_cedilla @ ''o/hor'' @ a_acute @ ''rio''
          @ ''\<newline>*2* - Confirmar presen'' @ c_cedilla @ ''a''
          @ ''\<newline>*3* - Falar com noivos''
          @ ''\<newline>*4* - Lista de presentes'')"
    by (simp add: convite_text_def)
qed

section \<open>Who is invited\<close>

text \<open>
  C5. When the query of the broadcast is answered, the guests of the timers are exactly the
  rows with \<open>confirmed = false\<close>, in table order, and the deferred actions that run are the
  sends for those guests and no others. If no row has \<open>confirmed = false\<close>, no timer is
  set, no deferred action runs, and the route still answers 201.
\<close>

theorem sendConvite_route_targets:
  assumes "flt (length (issued d)) (FindMany (Some False)) = None"
  shows "map guest (fst (snd (sendConvite_route flt d))) = filter (\<lambda>g. confirmed g = Some False) (rows d)
       \<and> fst (snd (broadcast B gws flt d))
           = map (\<lambda>(k, g). sendConvite B (gws k) g) (enumerate 0 (filter (\<lambda>g. confirmed g = Some False) (rows d)))
       \<and> (\<forall>t \<in> set (fst (snd (sendConvite_route flt d))). guest t \<in> set (rows d) \<and> confirmed (guest t) = Some False)
       \<and> ((\<forall>g \<in> set (rows d). confirmed g \<noteq> Some False) \<longrightarrow>
            fst (snd (sendConvite_route flt d)) = []
            \<and> fst (snd (broadcast B gws flt d)) = []
            \<and> fst (sendConvite_route flt d)
                = Inr \<lparr>res_status = 201, res_json = Obj [(''message'', Str ''Convites sendo enviados'')]\<rparr>)"
proof -
  let ?gs = "filter (\<lambda>g. confirmed g = Some False) (rows d)"
  let ?ts = "map (\<lambda>(index, convidado). \<lparr>delay = index * 60000, guest = convidado\<rparr>) (enumerate 0 ?gs)"
  have route: "sendConvite_route flt d =
     (Inr \<lparr>res_status = 201, res_json = Obj [(''message'', Str ''Convites sendo enviados'')]\<rparr>, ?ts,
      issue (FindMany (Some False)) d)"
    using assms by (rule sendConvite_route_ok)
  have g: "map guest ?ts = ?gs" by (rule guest_timers)
  have runs: "fst (snd (broadcast B gws flt d)) = map (\<lambda>(k, g). sendConvite B (gws k) g) (enumerate 0 ?gs)"
    using assms by (rule broadcast_runs)
  have mem: "guest t \<in> set (rows d) \<and> confirmed (guest t) = Some False" if "t \<in> set ?ts" for t
  proof -
    from that have "guest t \<in> set (map guest ?ts)" by (rule imageI[of t "set ?ts" guest, simplified set_map[symmetric]])
    then have "guest t \<in> set ?gs" unfolding g .
    then show ?thesis by simp
  qed
  have none: "?gs = []" if "\<forall>g \<in> set (rows d). confirmed g \<noteq> Some False"
    using that by (simp add: filter_empty_conv)
  show ?thesis
    unfolding runs using g mem none by (simp add: route)
qed

theorem sendConvite_route_targets_witness:
  "no_faults (length (issued party_db)) (FindMany (Some False)) = None
   \<and> no_faults (length (issued empty_db)) (FindMany (Some False)) = None
   \<and> rows empty_db = []
   \<and> map guest (fst (snd (sendConvite_route no_faults party_db))) = [bia_row]
   \<and> fst (snd (broadcast None (\<lambda>k. gateway_down) no_faults party_db)) = [sendConvite None gateway_down bia_row]
   \<and> fst (snd (sendConvite_route no_faults empty_db)) = []
   \<and> fst (snd (broadcast None (\<lambda>k. gateway_down) no_faults empty_db)) = []
   \<and> fst (sendConvite_route no_faults empty_db)
       = Inr \<lparr>res_status = 201, res_json = Obj [(''message'', Str ''Convites sendo enviados'')]\<rparr>"
proof -
  have h1: "no_faults (length (issued party_db)) (FindMany (Some False)) = None" by (simp add: no_faults_def)
  have h2: "no_faults (length (issued empty_db)) (FindMany (Some False)) = None" by (simp add: no_faults_def)
  have h3: "\<forall>g \<in> set (rows empty_db). confirmed g \<noteq> Some False" by (simp add: empty_db_def)
  have gs: "filter (\<lambda>g. confirmed g = Some False) (rows party_db) = [bia_row]"
    by (simp add: party_db_def ana_row_def bia_row_def caio_row_def)
  note p = sendConvite_route_targets[of no_faults party_db None "\<lambda>k. gateway_down", OF h1, unfolded gs]
  note e = sendConvite_route_targets[of no_faults empty_db None "\<lambda>k. gateway_down", OF h2]
  have r: "rows empty_db = []" by (simp add: empty_db_def)
  show ?thesis using p e h1 h2 h3 r by simp
qed

section \<open>The answer of the broadcast\<close>

lemma console_catch:
  "snd (catch_console_error (then_json (fetch gw c)))
     = (case gw c of Unreachable m \<Rightarrow> [Error m] | NotJson m \<Rightarrow> [Error m] | Json v \<Rightarrow> [])"
  by (cases "gw c") (simp_all add: fetch_def)

text \<open>
  C6, as amended. When the guest query of the broadcast is answered, the route responds 201
  with the body \<^verbatim>\<open>{message: 'Convites sendo enviados'}\<close>, and the response is the same
  for every behaviour of the gateway. Every deferred action settles as resolved: each
  failing call (connection refused, answer that is not JSON) adds its error to the console
  and nothing else.
\<close>

theorem sendConvite_route_answer:
  assumes "flt (length (issued d)) (FindMany (Some False)) = None"
  shows "fst (sendConvite_route flt d)
           = Inr \<lparr>res_status = 201, res_json = Obj [(''message'', Str ''Convites sendo enviados'')]\<rparr>
       \<and> fst (broadcast B gws flt d) = fst (sendConvite_route flt d)
       \<and> (\<forall>run \<in> set (fst (snd (broadcast B gws flt d))). settled run = Resolved ())
       \<and> settled (sendConvite B gw g) = Resolved ()
       \<and> console (sendConvite B gw g)
           = concat (map (\<lambda>c. case gw c of Unreachable m \<Rightarrow> [Error m] | NotJson m \<Rightarrow> [Error m] | Json v \<Rightarrow> [])
                         (posted (sendConvite B gw g)))"
proof -
  let ?gs = "filter (\<lambda>g. confirmed g = Some False) (rows d)"
  have route: "fst (sendConvite_route flt d)
           = Inr \<lparr>res_status = 201, res_json = Obj [(''message'', Str ''Convites sendo enviados'')]\<rparr>"
    using assms by (simp add: sendConvite_route_ok)
  have same: "fst (broadcast B gws flt d) = fst (sendConvite_route flt d)"
    by (simp add: broadcast_def split_beta)
  have runs: "fst (snd (broadcast B gws flt d)) = map (\<lambda>(k, g). sendConvite B (gws k) g) (enumerate 0 ?gs)"
    using assms by (rule broadcast_runs)
  have one: "settled (sendConvite B' gw' g') = Resolved ()" for B' gw' g'
    by (simp add: sendConvite_unfold)
  have all: "settled run = Resolved ()" if "run \<in> set (fst (snd (broadcast B gws flt d)))" for run
    using that one unfolding runs by auto
  have log: "console (sendConvite B gw g)
           = concat (map (\<lambda>c. case gw c of Unreachable m \<Rightarrow> [Error m] | NotJson m \<Rightarrow> [Error m] | Json v \<Rightarrow> [])
                         (posted (sendConvite B gw g)))"
    by (simp add: sendConvite_unfold console_catch)
  show ?thesis using route same all one log by blast
qed

theorem sendConvite_route_answer_witness:
  "no_faults (length (issued pending_db)) (FindMany (Some False)) = None
   \<and> fst (broadcast None (\<lambda>k. gateway_down) no_faults pending_db)
       = Inr \<lparr>res_status = 201, res_json = Obj [(''message'', Str ''Convites sendo enviados'')]\<rparr>
   \<and> sendConvite None gateway_down ana_row \<in> set (fst (snd (broadcast None (\<lambda>k. gateway_down) no_faults pending_db)))
   \<and> settled (sendConvite None gateway_down ana_row) = Resolved ()
   \<and> console (sendConvite None gateway_down ana_row) = [Error ''ECONNREFUSED'', Error ''ECONNREFUSED'']"
proof -
  have h: "no_faults (length (issued pending_db)) (FindMany (Some False)) = None"
    by (simp add: no_faults_def)
  have gs: "filter (\<lambda>g. confirmed g = Some False) (rows pending_db) = [ana_row, bia_row]"
    by (simp add: pending_db_def ana_row_def bia_row_def)
  have m: "sendConvite None gateway_down ana_row \<in> set (fst (snd (broadcast None (\<lambda>k. gateway_down) no_faults pending_db)))"
    using broadcast_runs[of no_faults pending_db None "\<lambda>k. gateway_down"] h by (simp add: gs)
  note t = sendConvite_route_answer[of no_faults pending_db None "\<lambda>k. gateway_down" gateway_down ana_row, OF h]
  have p: "length (posted (sendConvite None gateway_down ana_row)) = 2"
    by (simp add: sendConvite_unfold)
  have c: "console (sendConvite None gateway_down ana_row) = [Error ''ECONNREFUSED'', Error ''ECONNREFUSED'']"
    using t by (simp add: sendConvite_unfold gateway_down_def)
  show ?thesis using t h m c by simp
qed

text \<open>
  C6 as stated fails: on the empty table the body is not
  \<^verbatim>\<open>{message: "invitations being sent"}\<close>, and with the database unreachable the route
  rejects with the storage error instead of responding 201.
\<close>

theorem sendConvite_route_answer_counterexample:
  "fst (sendConvite_route no_faults empty_db)
     \<noteq> Inr \<lparr>res_status = 201, res_json = Obj [(''message'', Str ''invitations being sent'')]\<rparr>
   \<and> fst (sendConvite_route db_down empty_db) = Inl (PrismaClientError ''unreachable'')"
  by (simp add: sendConvite_route_def findMany_def no_faults_def db_down_def empty_db_def CREATED_def)

section \<open>A storage failure ends the bulk import\<close>

lemma registrar_loop_append:
  "registrar_loop flt (xs @ ys) d =
     (case registrar_loop flt xs d of (Inl e, d1) \<Rightarrow> (Inl e, d1) | (Inr u, d1) \<Rightarrow> registrar_loop flt ys d1)"
  by (induction xs arbitrary: d) (auto split: prod.splits sum.splits option.splits)

lemma registrar_loop_lookup_refused:
  "flt (length (issued d)) (FindFirst (phone_in c)) = Some m \<Longrightarrow>
   registrar_loop flt (c # cs) d = (Inl (PrismaClientError m), issue (FindFirst (phone_in c)) d)"
  by (simp add: findFirst_def)

lemma registrar_loop_create_refused:
  assumes "flt (length (issued d)) (FindFirst (phone_in c)) = None"
      and "phone_in c \<notin> phone ` set (rows d)"
      and "flt (Suc (length (issued d))) (Create (nome_in c) (phone_in c) (presente_in c)) = Some m"
  shows "registrar_loop flt (c # cs) d =
           (Inl (PrismaClientError m),
            issue (Create (nome_in c) (phone_in c) (presente_in c)) (issue (FindFirst (phone_in c)) d))"
proof -
  have "find (\<lambda>r. phone r = phone_in c) (rows d) = None"
    using assms(2) by (simp add: find_phone_None)
  then show ?thesis using assms(1,3) by (simp add: findFirst_def create_def)
qed

lemma route_loop_failed:
  "registrar_loop flt body d = (Inl e, d1) \<Longrightarrow> registrarConvidados_route flt body d = (Inl e, d1)"
  by (simp add: registrarConvidados_route_def)

text \<open>
  C8. Let the loop have gone through the tuples \<open>before\<close> without a failure, leaving the
  database \<open>d1\<close>. If the lookup for the next tuple \<open>c\<close> is refused, or the lookup finds
  nothing and the insert of \<open>c\<close> is refused, the route rejects with that storage error.
  The database it leaves is \<open>d1\<close> with the refused query logged, whatever tuples \<open>rest\<close>
  follow: none of them is looked up or inserted, and the final listing is not issued. The
  rows inserted for \<open>before\<close> remain.
\<close>

theorem registrarConvidados_aborts:
  assumes "registrar_loop flt before d = (Inr (), d1)"
  shows "(flt (length (issued d1)) (FindFirst (phone_in c)) = Some m \<longrightarrow>
            registrarConvidados_route flt (before @ c # rest) d
              = (Inl (PrismaClientError m), issue (FindFirst (phone_in c)) d1))
       \<and> (flt (length (issued d1)) (FindFirst (phone_in c)) = None
            \<and> phone_in c \<notin> phone ` set (rows d1)
            \<and> flt (Suc (length (issued d1))) (Create (nome_in c) (phone_in c) (presente_in c)) = Some m \<longrightarrow>
            registrarConvidados_route flt (before @ c # rest) d
              = (Inl (PrismaClientError m),
                 issue (Create (nome_in c) (phone_in c) (presente_in c)) (issue (FindFirst (phone_in c)) d1)))"
proof (intro conjI impI)
  have split: "registrar_loop flt (before @ c # rest) d = registrar_loop flt (c # rest) d1"
    using assms by (simp add: registrar_loop_append)
  show "registrarConvidados_route flt (before @ c # rest) d
          = (Inl (PrismaClientError m), issue (FindFirst (phone_in c)) d1)"
    if "flt (length (issued d1)) (FindFirst (phone_in c)) = Some m"
    using registrar_loop_lookup_refused[of flt d1 c m rest] that split by (intro route_loop_failed) simp
  show "registrarConvidados_route flt (before @ c # rest) d
          = (Inl (PrismaClientError m),
             issue (Create (nome_in c) (phone_in c) (presente_in c)) (issue (FindFirst (phone_in c)) d1))"
    if "flt (length (issued d1)) (FindFirst (phone_in c)) = None
            \<and> phone_in c \<notin> phone ` set (rows d1)
            \<and> flt (Suc (length (issued d1))) (Create (nome_in c) (phone_in c) (presente_in c)) = Some m"
    using registrar_loop_create_refused[of flt d1 c m rest] that split by (intro route_loop_failed) simp
qed

lemma loop_ana_2: "registrar_loop (fails_at 2) [ana] empty_db = (Inr (), ana_db\<lparr>issued := take 2 (issued ana_db)\<rparr>)"
  by (simp add: findFirst_def create_def issue_def new_row_def fails_at_def empty_db_def ana_def ana_row_def ana_db_def)

lemma loop_ana_3: "registrar_loop (fails_at 3) [ana] empty_db = (Inr (), ana_db\<lparr>issued := take 2 (issued ana_db)\<rparr>)"
  by (simp add: findFirst_def create_def issue_def new_row_def fails_at_def empty_db_def ana_def ana_row_def ana_db_def)

theorem registrarConvidados_aborts_witness:
  "registrar_loop (fails_at 2) [ana] empty_db = (Inr (), ana_db\<lparr>issued := take 2 (issued ana_db)\<rparr>)
   \<and> fails_at 2 2 (FindFirst (phone_in bia)) = Some ''unreachable''
   \<and> registrarConvidados_route (fails_at 2) [ana, bia, caio] empty_db
       = (Inl (PrismaClientError ''unreachable''),
          \<lparr>rows = [ana_row], serial = 2, clock = 0,
           issued = [FindFirst (phone_in ana), Create ''Ana'' (phone_in ana) (Some ''S''), FindFirst (phone_in bia)]\<rparr>)
   \<and> registrar_loop (fails_at 3) [ana] empty_db = (Inr (), ana_db\<lparr>issued := take 2 (issued ana_db)\<rparr>)
   \<and> fails_at 3 2 (FindFirst (phone_in bia)) = None
   \<and> phone_in bia \<notin> phone ` set [ana_row]
   \<and> fails_at 3 3 (Create (nome_in bia) (phone_in bia) (presente_in bia)) = Some ''unreachable''
   \<and> registrarConvidados_route (fails_at 3) [ana, bia, caio] empty_db
       = (Inl (PrismaClientError ''unreachable''),
          \<lparr>rows = [ana_row], serial = 2, clock = 0,
           issued = [FindFirst (phone_in ana), Create ''Ana'' (phone_in ana) (Some ''S''), FindFirst (phone_in bia),
                     Create ''Bia'' (phone_in bia) None]\<rparr>)"
proof -
  let ?d1 = "ana_db\<lparr>issued := take 2 (issued ana_db)\<rparr>"
  have len: "length (issued ?d1) = 2" by (simp add: ana_db_def)
  have a1: "fails_at 2 (length (issued ?d1)) (FindFirst (phone_in bia)) = Some ''unreachable''"
    unfolding len by (simp add: fails_at_def)
  have b1: "fails_at 3 (length (issued ?d1)) (FindFirst (phone_in bia)) = None"
    unfolding len by (simp add: fails_at_def)
  have b2: "phone_in bia \<notin> phone ` set (rows ?d1)"
    by (simp add: ana_db_def ana_row_def bia_def)
  have b3: "fails_at 3 (Suc (length (issued ?d1))) (Create (nome_in bia) (phone_in bia) (presente_in bia)) = Some ''unreachable''"
    unfolding len by (simp add: fails_at_def)
  note a = registrarConvidados_aborts[OF loop_ana_2, of bia "''unreachable''" "[caio]"]
  note b = registrarConvidados_aborts[OF loop_ana_3, of bia "''unreachable''" "[caio]"]
  have ra: "registrarConvidados_route (fails_at 2) ([ana] @ bia # [caio]) empty_db
       = (Inl (PrismaClientError ''unreachable''), issue (FindFirst (phone_in bia)) ?d1)"
    using a a1 by blast
  have rb: "registrarConvidados_route (fails_at 3) ([ana] @ bia # [caio]) empty_db
       = (Inl (PrismaClientError ''unreachable''),
          issue (Create (nome_in bia) (phone_in bia) (presente_in bia)) (issue (FindFirst (phone_in bia)) ?d1))"
    using b b1 b2 b3 by blast
  show ?thesis
    using ra rb loop_ana_2 loop_ana_3
    by (simp add: fails_at_def issue_def ana_db_def ana_def bia_def ana_row_def)
qed

section \<open>Imported guests are unconfirmed\<close>

lemma confirmed_new_row [simp]: "confirmed (new_row d n p pr) = Some False"
  by (simp add: new_row_def)

lemma registrar_loop_new_rows:
  "\<exists>new. rows (snd (registrar_loop flt body d)) = rows d @ new \<and> (\<forall>r \<in> set new. confirmed r = Some False)"
proof (induction body arbitrary: d)
  case Nil
  then show ?case by simp
next
  case (Cons c cs)
  show ?case
  proof (cases rule: registrar_loop_Cons_cases[of flt c cs d])
    case (lookup_refused e)
    then show ?thesis by simp
  next
    case skipped
    then show ?thesis using Cons.IH[of "issue (FindFirst (phone_in c)) d"] by simp
  next
    case (create_refused e)
    then show ?thesis by simp
  next
    case (created d2)
    from Cons.IH[of d2] obtain new where
      "rows (snd (registrar_loop flt cs d2)) = rows d2 @ new" "\<forall>r \<in> set new. confirmed r = Some False"
      by blast
    then have "rows (snd (registrar_loop flt (c # cs) d))
        = rows d @ (new_row (issue (FindFirst (phone_in c)) d) (nome_in c) (phone_in c) (presente_in c) # new)
      \<and> (\<forall>r \<in> set (new_row (issue (FindFirst (phone_in c)) d) (nome_in c) (phone_in c) (presente_in c) # new).
            confirmed r = Some False)"
      using created by simp
    then show ?thesis by blast
  qed
qed

lemma sendConvite_route_guests:
  assumes "flt (length (issued d)) (FindMany (Some False)) = None"
  shows "map guest (fst (snd (sendConvite_route flt d))) = filter (\<lambda>g. confirmed g = Some False) (rows d)"
proof -
  have "fst (snd (sendConvite_route flt d))
      = map (\<lambda>(index, convidado). \<lparr>delay = index * 60000, guest = convidado\<rparr>)
          (enumerate 0 (filter (\<lambda>g. confirmed g = Some False) (rows d)))"
    using assms by (simp add: sendConvite_route_ok)
  then show ?thesis by (simp only: guest_timers)
qed

text \<open>
  C9. The bulk import leaves the old rows in place and appends the new ones. Every appended
  row has \<open>confirmed = false\<close>, the default of the column, since the insert passes only
  \<open>nome\<close>, \<open>phone\<close> and \<open>presente\<close>; so a broadcast whose query is answered on the
  resulting table sets a timer for it. The broadcast and the report leave every row as it is.
\<close>

theorem registrarConvidados_unconfirmed:
  "rows (snd (registrarConvidados_route flt body d))
     = rows d @ drop (length (rows d)) (rows (snd (registrarConvidados_route flt body d)))
   \<and> (\<forall>r \<in> set (drop (length (rows d)) (rows (snd (registrarConvidados_route flt body d)))).
         confirmed r = Some False
         \<and> (flt' (length (issued (snd (registrarConvidados_route flt body d)))) (FindMany (Some False)) = None
              \<longrightarrow> r \<in> guest ` set (fst (snd (sendConvite_route flt' (snd (registrarConvidados_route flt body d)))))))
   \<and> rows (snd (snd (sendConvite_route flt' d))) = rows d
   \<and> rows (snd (confirmados_route flt' d)) = rows d"
proof -
  have keep1: "rows (snd (snd (sendConvite_route flt' d))) = rows d"
    by (cases "flt' (length (issued d)) (FindMany (Some False))")
       (simp_all add: sendConvite_route_ok sendConvite_route_refused)
  have keep2: "rows (snd (confirmados_route flt' d)) = rows d"
    by (simp add: snd_confirmados_route)
  let ?d' = "snd (registrarConvidados_route flt body d)"
  obtain new where new: "rows ?d' = rows d @ new" "\<forall>r \<in> set new. confirmed r = Some False"
    using registrar_loop_new_rows[of flt body d] by (auto simp: rows_route)
  then have dr: "drop (length (rows d)) (rows ?d') = new" by simp
  have target: "r \<in> guest ` set (fst (snd (sendConvite_route flt' ?d')))"
    if "r \<in> set new" and ok: "flt' (length (issued ?d')) (FindMany (Some False)) = None" for r
  proof -
    have "r \<in> set (filter (\<lambda>g. confirmed g = Some False) (rows ?d'))"
      using that(1) new by simp
    moreover have "map guest (fst (snd (sendConvite_route flt' ?d'))) = filter (\<lambda>g. confirmed g = Some False) (rows ?d')"
      using ok by (rule sendConvite_route_guests)
    ultimately have "r \<in> set (map guest (fst (snd (sendConvite_route flt' ?d'))))" by simp
    then show ?thesis by simp
  qed
  show ?thesis unfolding dr using new target keep1 keep2 by simp
qed

lemma import_ana_bia:
  "registrarConvidados_route no_faults [ana, bia] empty_db =
     (Inr \<lparr>res_status = 201, res_json = [ana_row, bia_row]\<rparr>,
      \<lparr>rows = [ana_row, bia_row], serial = 3, clock = 0,
       issued = [FindFirst (phone_in ana), Create ''Ana'' (phone_in ana) (Some ''S''),
                 FindFirst (phone_in bia), Create ''Bia'' (phone_in bia) None, FindMany None]\<rparr>)"
  by (simp add: registrarConvidados_route_def findFirst_def create_def findMany_def issue_def new_row_def
      no_faults_def empty_db_def ana_def bia_def ana_row_def bia_row_def CREATED_def)

theorem registrarConvidados_unconfirmed_witness:
  "rows (snd (registrarConvidados_route no_faults [ana, bia] empty_db)) = [ana_row, bia_row]
   \<and> drop (length (rows empty_db)) (rows (snd (registrarConvidados_route no_faults [ana, bia] empty_db))) = [ana_row, bia_row]
   \<and> confirmed bia_row = Some False
   \<and> no_faults (length (issued (snd (registrarConvidados_route no_faults [ana, bia] empty_db)))) (FindMany (Some False)) = None
   \<and> bia_row \<in> guest ` set (fst (snd (sendConvite_route no_faults (snd (registrarConvidados_route no_faults [ana, bia] empty_db)))))"
proof -
  have r: "rows (snd (registrarConvidados_route no_faults [ana, bia] empty_db)) = [ana_row, bia_row]"
    by (simp add: import_ana_bia)
  have e: "rows empty_db = []" by (simp add: empty_db_def)
  have h: "no_faults (length (issued (snd (registrarConvidados_route no_faults [ana, bia] empty_db)))) (FindMany (Some False)) = None"
    by (simp add: no_faults_def)
  note t = registrarConvidados_unconfirmed[of no_faults "[ana, bia]" empty_db no_faults, unfolded r e]
  have "confirmed bia_row = Some False
        \<and> bia_row \<in> guest ` set (fst (snd (sendConvite_route no_faults (snd (registrarConvidados_route no_faults [ana, bia] empty_db)))))"
    using t h by simp
  then show ?thesis using r e h by simp
qed

section \<open>Buttons are validated before the gateway is called\<close>

lemma validate_buttons_fails:
  "\<exists>b \<in> set bs. validate b \<noteq> None \<Longrightarrow>
   \<exists>b \<in> set bs. \<exists>m. validate b = Some m \<and> validate_buttons validate bs = Inl (BadRequestException m None)"
proof (induction bs)
  case Nil
  then show ?case by simp
next
  case (Cons a bs)
  show ?case
  proof (cases "validate a")
    case (Some m)
    then show ?thesis by auto
  next
    case None
    then have "\<exists>b \<in> set bs. validate b \<noteq> None" using Cons.prems by auto
    from Cons.IH[OF this] show ?thesis using None by auto
  qed
qed

lemma validate_buttons_passes:
  "\<forall>b \<in> set bs. validate b = None \<Longrightarrow> validate_buttons validate bs = Inr ()"
  by (induction bs) simp_all

text \<open>
  C7. For a request that passes the schema and whose data builds a DTO: if some button of
  the list fails its \<open>validate\<close>, the route rejects with a \<open>BadRequestException\<close> carrying
  the message of such a button, the controller is not invoked and no gateway call is made;
  if every button passes, the controller method \<open>sendButtons\<close> is invoked.
\<close>

theorem sendButtons_route_validates:
  assumes "buttonsMessageSchema req = Inr (instance, data)" and "newDto data = Inr props"
  shows "((\<exists>b \<in> set (buttons props). validate b \<noteq> None) \<longrightarrow>
            (\<exists>b \<in> set (buttons props). \<exists>m. validate b = Some m
               \<and> sendButtons_route buttonsMessageSchema newDto buttons validate stack sendButtons req
                   = ([], Inl (BadRequestException m (stack (BadRequestException m None))))))
       \<and> ((\<forall>b \<in> set (buttons props). validate b = None) \<longrightarrow>
            fst (sendButtons_route buttonsMessageSchema newDto buttons validate stack sendButtons req)
              = Invoked ''sendButtons'' # map Posted (fst (sendButtons instance props)))"
proof (intro conjI impI)
  assume "\<exists>b \<in> set (buttons props). validate b \<noteq> None"
  from validate_buttons_fails[OF this] obtain b m where
    b: "b \<in> set (buttons props)" "validate b = Some m"
       "validate_buttons validate (buttons props) = Inl (BadRequestException m None)"
    by blast
  have "sendButtons_route buttonsMessageSchema newDto buttons validate stack sendButtons req
          = ([], Inl (BadRequestException m (stack (BadRequestException m None))))"
    using assms b(3) by (simp add: sendButtons_route_def dataValidate_def sendButtons_execute_def respond_def)
  then show "\<exists>b \<in> set (buttons props). \<exists>m. validate b = Some m
               \<and> sendButtons_route buttonsMessageSchema newDto buttons validate stack sendButtons req
                   = ([], Inl (BadRequestException m (stack (BadRequestException m None))))"
    using b(1,2) by blast
next
  assume "\<forall>b \<in> set (buttons props). validate b = None"
  then have ok: "validate_buttons validate (buttons props) = Inr ()"
    by (rule validate_buttons_passes)
  obtain calls outcome where c: "sendButtons instance props = (calls, outcome)" by force
  show "fst (sendButtons_route buttonsMessageSchema newDto buttons validate stack sendButtons req)
          = Invoked ''sendButtons'' # map Posted (fst (sendButtons instance props))"
    using assms ok c
    by (cases outcome; cases "projr outcome")
       (simp_all add: sendButtons_route_def dataValidate_def sendButtons_execute_def respond_def invoke_def)
qed

theorem sendButtons_route_validates_witness:
  "schema_ok json_request = Inr (''baby'', [''Confirmar'', [], ''Falar''])
   \<and> newDto_ok [''Confirmar'', [], ''Falar''] = Inr [''Confirmar'', [], ''Falar'']
   \<and> displayText_required [] \<noteq> None
   \<and> sendButtons_route schema_ok newDto_ok (\<lambda>p. p) displayText_required no_stack gateway_once json_request
       = ([], Inl (BadRequestException ''displayText is required'' None))
   \<and> displayText_required ''Confirmar'' = None
   \<and> fst (sendButtons_route schema_ok newDto_ok (\<lambda>p. [''Confirmar'']) displayText_required no_stack gateway_once json_request)
       = [Invoked ''sendButtons'', Posted (post ''http://gateway/message/sendButtons/baby'' (Obj []))]"
proof -
  have h1: "schema_ok json_request = Inr (''baby'', [''Confirmar'', [], ''Falar''])" by (simp add: schema_ok_def)
  have h2: "newDto_ok [''Confirmar'', [], ''Falar''] = Inr [''Confirmar'', [], ''Falar'']" by (simp add: newDto_ok_def)
  have v: "displayText_required [] = Some ''displayText is required''" "displayText_required ''Confirmar'' = None"
          "displayText_required ''Falar'' = None"
    by (simp_all add: displayText_required_def)
  note a = sendButtons_route_validates[of schema_ok json_request "''baby''" "[''Confirmar'', [], ''Falar'']" newDto_ok
      "[''Confirmar'', [], ''Falar'']" "\<lambda>p. p" displayText_required no_stack gateway_once, OF h1 h2]
  note b = sendButtons_route_validates[of schema_ok json_request "''baby''" "[''Confirmar'', [], ''Falar'']" newDto_ok
      "[''Confirmar'', [], ''Falar'']" "\<lambda>p. [''Confirmar'']" displayText_required no_stack gateway_once, OF h1 h2]
  have "sendButtons_route schema_ok newDto_ok (\<lambda>p. p) displayText_required no_stack gateway_once json_request
       = ([], Inl (BadRequestException ''displayText is required'' None))"
    using a v by (auto simp: no_stack_def)
  moreover have "fst (sendButtons_route schema_ok newDto_ok (\<lambda>p. [''Confirmar'']) displayText_required no_stack gateway_once json_request)
       = [Invoked ''sendButtons'', Posted (post ''http://gateway/message/sendButtons/baby'' (Obj []))]"
    using b v by (simp add: gateway_once_def)
  ultimately show ?thesis using h1 h2 v by simp
qed

section \<open>A request without the attachment does not reach the controller\<close>








end
